theory Spec2Isabelle
  imports Main
begin

text \<open>
  A model of \<^verbatim>\<open>checkRpcSync\<close> and \<^verbatim>\<open>waitForTx\<close> of \<^verbatim>\<open>src/index.js\<close>, as these two functions
  are defined. The module exports each of them behind a wrapper that first awaits
  \<^verbatim>\<open>setupUtils\<close>; the wrapper is not part of the model.
\<close>

section \<open>JavaScript values\<close>

text \<open>
  Both entry points of \<^verbatim>\<open>src/index.js\<close> signal failure by throwing: an \<^verbatim>\<open>Error\<close> built
  from a message, the \<^verbatim>\<open>TypeError\<close> of the engine when a method is called on a value that
  has none (its message is the engine's and is not modelled), and the
  \<^verbatim>\<open>AssertionError\<close> of \<^verbatim>\<open>assert\<close>.
\<close>

datatype js_error = Error string | TypeError | AssertionError

text \<open>
  Block numbers are JavaScript numbers holding integers. \<^verbatim>\<open>Math.max\<close> of no argument is
  \<^verbatim>\<open>-Infinity\<close>, and a number minus \<^verbatim>\<open>-Infinity\<close> is \<^verbatim>\<open>Infinity\<close>.
\<close>

datatype js_number = NegInfinity | Num int | PosInfinity

text \<open>\<^verbatim>\<open>ToNumber\<close> as \<^verbatim>\<open>Math.max\<close> applies it to its arguments: \<^verbatim>\<open>null\<close> becomes 0.\<close>

fun ToNumber :: "int option \<Rightarrow> int" where
  "ToNumber None = 0"
| "ToNumber (Some b) = b"

fun max2 :: "js_number \<Rightarrow> int \<Rightarrow> js_number" where
  "max2 NegInfinity x = Num x"
| "max2 (Num a) x = Num (max a x)"
| "max2 PosInfinity x = PosInfinity"

definition Math_max :: "int option list \<Rightarrow> js_number" where
  "Math_max bs = foldl max2 NegInfinity (map ToNumber bs)"

text \<open>\<^verbatim>\<open>maxBlock - 1\<close> and \<^verbatim>\<open>blocks[i] - maxBlock\<close>.\<close>

fun js_dec :: "js_number \<Rightarrow> js_number" where
  "js_dec (Num n) = Num (n - 1)"
| "js_dec NegInfinity = NegInfinity"
| "js_dec PosInfinity = PosInfinity"

fun js_sub :: "int \<Rightarrow> js_number \<Rightarrow> js_number" where
  "js_sub b (Num n) = Num (b - n)"
| "js_sub b NegInfinity = PosInfinity"
| "js_sub b PosInfinity = NegInfinity"

text \<open>Decimal rendering of an integer inside a template literal.\<close>

definition digit_char :: "nat \<Rightarrow> char" where
  "digit_char d = ''0123456789'' ! d"

fun show_nat :: "nat \<Rightarrow> string" where
  "show_nat n = (if n < 10 then [digit_char n] else show_nat (n div 10) @ [digit_char (n mod 10)])"

declare show_nat.simps [simp del]

definition show_int :: "int \<Rightarrow> string" where
  "show_int i = (if i < 0 then CHR ''-'' # show_nat (nat (- i)) else show_nat (nat i))"

fun show_number :: "js_number \<Rightarrow> string" where
  "show_number (Num n) = show_int n"
| "show_number NegInfinity = ''-Infinity''"
| "show_number PosInfinity = ''Infinity''"

text \<open>
  \<^verbatim>\<open>Array.prototype.indexOf\<close> (-1 when absent) and an indexed read, which yields
  \<^verbatim>\<open>undefined\<close> (here \<open>None\<close>) out of range.
\<close>

fun indexOf :: "'a list \<Rightarrow> 'a \<Rightarrow> int" where
  "indexOf [] x = - 1"
| "indexOf (y # ys) x =
     (if y = x then 0 else (let i = indexOf ys x in if i < 0 then - 1 else i + 1))"

definition elem_at :: "'a list \<Rightarrow> int \<Rightarrow> 'a option" where
  "elem_at xs i = (if 0 \<le> i \<and> i < int (length xs) then Some (xs ! nat i) else None)"

section \<open>checkRpcSync\<close>

text \<open>
  The caller's \<^verbatim>\<open>rpcs\<close> array is an object on the heap, passed by reference; the heap maps
  a reference to the array's elements.
\<close>

type_synonym ref = nat
type_synonym heap = "ref \<Rightarrow> string list"

text \<open>What \<^verbatim>\<open>console.log\<close> receives; \<^verbatim>\<open>chalk\<close> colours are kept as data.\<close>

datatype chalk = Green | Yellow | Red | White | Gray

datatype line =
    Checking string
  | MaximumBlock js_number
  | NullLine string
  | BlockLine chalk int js_number chalk string
  | UpToSpeed
  | OneBlockBehind int js_number

text \<open>
  Lines 264 to 266: one \<^verbatim>\<open>getBlockNumber\<close> request per element of \<^verbatim>\<open>rpcs\<close>, all settled
  before going on, a rejected one mapped to \<^verbatim>\<open>null\<close>. The endpoint's answer to the request
  at position \<open>i\<close> is \<open>q i rpc\<close> (\<open>None\<close> when the request fails); two requests to one
  endpoint are separate requests and may be answered differently. The first component
  logs the requests issued. The elements are endpoint strings that the \<^verbatim>\<open>Web3\<close>
  constructor accepts: \<^verbatim>\<open>web3\<close> is a dependency, not part of the repository, and how it
  treats a string it cannot use is not modelled.
\<close>

fun getBlockNumbers ::
  "(nat \<Rightarrow> string \<Rightarrow> int option) \<Rightarrow> nat \<Rightarrow> string list \<Rightarrow> string list \<times> int option list" where
  "getBlockNumbers q i [] = ([], [])"
| "getBlockNumbers q i (rpc # rest) =
     (case getBlockNumbers q (Suc i) rest of (reqs, bs) \<Rightarrow> (rpc # reqs, q i rpc # bs))"

text \<open>Lines 281 to 291: the \<^verbatim>\<open>switch\<close> on \<^verbatim>\<open>blocks[i]\<close>, by strict equality.\<close>

definition blockColor :: "int \<Rightarrow> js_number \<Rightarrow> chalk" where
  "blockColor b maxBlock =
     (if Num b = maxBlock then Green
      else if Num b = js_dec maxBlock then Yellow
      else Red)"

text \<open>Lines 272 to 297: the body of the loop, for one endpoint and its block.\<close>

fun report_line :: "string \<Rightarrow> js_number \<Rightarrow> string \<times> int option \<Rightarrow> line" where
  "report_line mainRpc maxBlock (rpc, None) = NullLine rpc"
| "report_line mainRpc maxBlock (rpc, Some b) =
     BlockLine (blockColor b maxBlock) b (js_sub b maxBlock)
       (if rpc = mainRpc then White else Gray) rpc"

text \<open>
  Lines 299 to 309: the comparison of the main endpoint, on \<^verbatim>\<open>blocks[rpcs.indexOf(mainRpc)]\<close>.
  The argument is \<open>None\<close> for \<^verbatim>\<open>undefined\<close> and \<open>Some None\<close> for \<^verbatim>\<open>null\<close>. The result is
  the lines logged and whether the function returns or throws.
\<close>

fun compare_main ::
  "string \<Rightarrow> js_number \<Rightarrow> int option option \<Rightarrow> line list \<times> (js_error + unit)" where
  "compare_main mainRpc maxBlock (Some None) =
     ([], Inl (Error (''The main RPC '' @ mainRpc @ '' is probably down'')))"
| "compare_main mainRpc maxBlock (Some (Some b)) =
     (if Num b = maxBlock then ([UpToSpeed], Inr ())
      else if Num b = js_dec maxBlock then ([OneBlockBehind b maxBlock], Inr ())
      else ([], Inl (Error (''The main RPC '' @ mainRpc @ '' is at block '' @ show_int b
                              @ ''/'' @ show_number maxBlock))))"
| "compare_main mainRpc maxBlock None =
     ([], Inl (Error (''The main RPC '' @ mainRpc @ '' is at block undefined/''
                        @ show_number maxBlock)))"

text \<open>
  One run of \<^verbatim>\<open>checkRpcSync\<close>: the heap when it ends, the requests it issued, what it
  logged, and whether it returned (\<open>Inr ()\<close>) or threw.
\<close>

record sync_run =
  heap_after :: heap
  queried :: "string list"
  console :: "line list"
  outcome :: "js_error + unit"

text \<open>
  \<open>mainRpc\<close> is \<open>None\<close> for \<^verbatim>\<open>null\<close> or \<^verbatim>\<open>undefined\<close>; \<open>rpcs_arg\<close> is \<open>None\<close> when the
  argument is omitted, and the default \<^verbatim>\<open>[]\<close> is then an array of the call's own.
\<close>

definition checkRpcSync ::
  "(nat \<Rightarrow> string \<Rightarrow> int option) \<Rightarrow> heap \<Rightarrow> string option \<Rightarrow> ref option \<Rightarrow> sync_run" where
  "checkRpcSync q h mainRpc rpcs_arg =
     (case mainRpc of
        None \<Rightarrow>
          \<lparr>heap_after = h, queried = [], console = [],
           outcome = Inl (Error ''mainRpc can't be null'')\<rparr>
      | Some m \<Rightarrow>
          let rpcs0 = (case rpcs_arg of None \<Rightarrow> [] | Some r \<Rightarrow> h r);
              rpcs = (if m \<in> set rpcs0 then rpcs0 else rpcs0 @ [m]);
              h' = (case rpcs_arg of None \<Rightarrow> h | Some r \<Rightarrow> h(r := rpcs));
              (reqs, blocks) = getBlockNumbers q 0 rpcs;
              maxBlock = Math_max blocks;
              head = [Checking m, MaximumBlock maxBlock]
          in if length rpcs \<noteq> length blocks
             then \<lparr>heap_after = h', queried = reqs, console = head,
                   outcome = Inl AssertionError\<rparr>
             else
               let report = map (report_line m maxBlock) (zip rpcs blocks);
                   (verdict, res) = compare_main m maxBlock (elem_at blocks (indexOf rpcs m))
               in \<lparr>heap_after = h', queried = reqs, console = head @ report @ verdict,
                   outcome = res\<rparr>)"

text \<open>
  The successfully returned heights among the settled results, and how the source's own
  comment reads the colours of a report line (0 blocks behind: green, 1 block behind:
  yellow, 2+ blocks behind: red; a failed request prints \<^verbatim>\<open>null\<close>).
\<close>

fun non_null :: "'a option list \<Rightarrow> 'a list" where
  "non_null [] = []"
| "non_null (None # bs) = non_null bs"
| "non_null (Some b # bs) = b # non_null bs"

datatype SyncClassification = UpToDate | OneBehind | Stale | Unreachable

fun classification :: "line \<Rightarrow> SyncClassification option" where
  "classification (NullLine rpc) = Some Unreachable"
| "classification (BlockLine Green b d c rpc) = Some UpToDate"
| "classification (BlockLine Yellow b d c rpc) = Some OneBehind"
| "classification (BlockLine Red b d c rpc) = Some Stale"
| "classification _ = None"

section \<open>waitForTx\<close>

text \<open>
  The \<^verbatim>\<open>mode\<close> argument is any JavaScript value. An object is given by the two things
  \<^verbatim>\<open>waitForTx\<close> can do with it: its \<^verbatim>\<open>toLowerCase\<close> property when that is a function
  (\<open>None\<close> when it has no such property or the property cannot be called), as what a
  call of it returns or throws; and its conversion to a string in a template literal, as
  the string or the error thrown. Numbers are integers. Strings are ASCII:
  \<^verbatim>\<open>toLowerCase\<close> maps \<^verbatim>\<open>A\<close> to \<^verbatim>\<open>Z\<close> onto \<^verbatim>\<open>a\<close> to \<^verbatim>\<open>z\<close> and leaves every other
  character alone.
\<close>

datatype js_value =
    JSUndefined
  | JSNull
  | JSBoolean bool
  | JSNumber int
  | JSBigInt int
  | JSSymbol
  | JSString string
  | JSObject "(js_error + js_value) option" "js_error + string"

definition toLower_char :: "char \<Rightarrow> char" where
  "toLower_char c =
     (case map_of (zip ''ABCDEFGHIJKLMNOPQRSTUVWXYZ'' ''abcdefghijklmnopqrstuvwxyz'') c of
        None \<Rightarrow> c
      | Some l \<Rightarrow> l)"

definition toLowerCase :: "string \<Rightarrow> string" where
  "toLowerCase s = map toLower_char s"

text \<open>
  A \<^verbatim>\<open>String\<close> object \<^verbatim>\<open>new String(s)\<close> inherits \<^verbatim>\<open>String.prototype.toLowerCase\<close>, which
  returns a primitive string, and converts to the string it wraps. A plain object has
  no \<^verbatim>\<open>toLowerCase\<close> and converts to \<^verbatim>\<open>[object Object]\<close>.
\<close>

definition new_String :: "string \<Rightarrow> js_value" where
  "new_String s = JSObject (Some (Inr (JSString (toLowerCase s)))) (Inr s)"

definition plain_object :: js_value where
  "plain_object = JSObject None (Inr ''[object Object]'')"

text \<open>Whether \<^verbatim>\<open>mode.toLowerCase\<close> is a function.\<close>

fun has_toLowerCase :: "js_value \<Rightarrow> bool" where
  "has_toLowerCase (JSString s) = True"
| "has_toLowerCase (JSObject (Some r) ts) = True"
| "has_toLowerCase _ = False"

text \<open>
  \<^verbatim>\<open>mode.toLowerCase()\<close>: the method's result on a value that has it, a \<^verbatim>\<open>TypeError\<close> on
  a value that has not.
\<close>

fun call_toLowerCase :: "js_value \<Rightarrow> js_error + js_value" where
  "call_toLowerCase (JSString s) = Inr (JSString (toLowerCase s))"
| "call_toLowerCase (JSObject (Some r) ts) = r"
| "call_toLowerCase _ = Inl TypeError"

text \<open>The conversion of a value to a string inside a template literal.\<close>

fun ToString :: "js_value \<Rightarrow> js_error + string" where
  "ToString JSUndefined = Inr ''undefined''"
| "ToString JSNull = Inr ''null''"
| "ToString (JSBoolean b) = Inr (if b then ''true'' else ''false'')"
| "ToString (JSNumber n) = Inr (show_int n)"
| "ToString (JSBigInt n) = Inr (show_int n)"
| "ToString JSSymbol = Inl TypeError"
| "ToString (JSString s) = Inr s"
| "ToString (JSObject m ts) = ts"

text \<open>
  The spellings of a lower-case word with any of its letters in upper case, to state
  what case-insensitive dispatch means.
\<close>

fun capitalizations :: "string \<Rightarrow> string list" where
  "capitalizations [] = [[]]"
| "capitalizations (c # cs) =
     concat (map (\<lambda>r. (c # r) # [u # r. u \<leftarrow> ''ABCDEFGHIJKLMNOPQRSTUVWXYZ'', toLower_char u = c])
                 (capitalizations cs))"

declare capitalizations.simps [simp del]

text \<open>
  The promise returned to the caller, and one watch session. JavaScript runs one callback
  at a time, so a session is a state changed by the events the event loop delivers, in
  the order it delivers them:
  \<^item> \<open>Data h\<close>: the feed emits the hash \<open>h\<close>; a new invocation of the \<^verbatim>\<open>async\<close>
    \<^verbatim>\<open>'data'\<close> listener starts and waits for \<^verbatim>\<open>getTransaction(h)\<close>;
  \<^item> \<open>GetTransactionSettled k r\<close>: the request of invocation \<open>k\<close> settles, with an
    error, with \<^verbatim>\<open>null\<close> (\<open>Inr None\<close>) or with a transaction; on a transaction the
    invocation calls \<^verbatim>\<open>matchF\<close> and waits for it;
  \<^item> \<open>MatchFSettled k r\<close>: \<^verbatim>\<open>matchF\<close> of invocation \<open>k\<close> throws or rejects (\<open>Inl\<close>) or
    yields a truthy or falsy value;
  \<^item> \<open>FeedError e\<close>: the feed emits \<^verbatim>\<open>'error'\<close>.
  An event for an invocation that is not waiting for it changes nothing.
\<close>

datatype 'tx promise = Pending | Fulfilled 'tx | Rejected js_error

datatype ('h, 'tx) listener = AwaitGetTransaction 'h | AwaitMatchF 'tx | Returned

datatype ('h, 'tx) event =
    Data 'h
  | GetTransactionSettled nat "js_error + 'tx option"
  | MatchFSettled nat "js_error + bool"
  | FeedError js_error

record ('h, 'tx) session =
  subscribes :: nat
  listeners :: "('h, 'tx) listener list"
  unsubscribes :: nat
  promise :: "'tx promise"
  uncaught :: "js_error list"

text \<open>\<^verbatim>\<open>resolve(tx)\<close>: settles a pending promise and is a no-op on a settled one.\<close>

fun resolve :: "'tx \<Rightarrow> 'tx promise \<Rightarrow> 'tx promise" where
  "resolve tx Pending = Fulfilled tx"
| "resolve tx p = p"

text \<open>
  Lines 399 to 409. An error inside the \<^verbatim>\<open>async\<close> listener rejects that invocation's own
  promise, which nobody handles; the \<^verbatim>\<open>'error'\<close> listener rethrows into the emitter. Both
  are recorded in \<open>uncaught\<close>; \<^verbatim>\<open>reject\<close> is never called.
\<close>

fun on_event :: "('h, 'tx) session \<Rightarrow> ('h, 'tx) event \<Rightarrow> ('h, 'tx) session" where
  "on_event s (Data h) = s\<lparr>listeners := listeners s @ [AwaitGetTransaction h]\<rparr>"
| "on_event s (GetTransactionSettled k r) =
     (if k < length (listeners s) then
        (case listeners s ! k of
           AwaitGetTransaction h \<Rightarrow>
             (case r of
                Inl e \<Rightarrow> s\<lparr>listeners := (listeners s)[k := Returned],
                            uncaught := uncaught s @ [e]\<rparr>
              | Inr None \<Rightarrow> s\<lparr>listeners := (listeners s)[k := Returned]\<rparr>
              | Inr (Some tx) \<Rightarrow> s\<lparr>listeners := (listeners s)[k := AwaitMatchF tx]\<rparr>)
         | _ \<Rightarrow> s)
      else s)"
| "on_event s (MatchFSettled k r) =
     (if k < length (listeners s) then
        (case listeners s ! k of
           AwaitMatchF tx \<Rightarrow>
             (case r of
                Inl e \<Rightarrow> s\<lparr>listeners := (listeners s)[k := Returned],
                            uncaught := uncaught s @ [e]\<rparr>
              | Inr False \<Rightarrow> s\<lparr>listeners := (listeners s)[k := Returned]\<rparr>
              | Inr True \<Rightarrow> s\<lparr>listeners := (listeners s)[k := Returned],
                               unsubscribes := Suc (unsubscribes s),
                               promise := resolve tx (promise s)\<rparr>)
         | _ \<Rightarrow> s)
      else s)"
| "on_event s (FeedError e) = s\<lparr>uncaught := uncaught s @ [e]\<rparr>"

text \<open>A call that throws before it subscribes: the promise is rejected, nothing else happened.\<close>

definition failed :: "js_error \<Rightarrow> ('h, 'tx) session" where
  "failed e = \<lparr>subscribes = 0, listeners = [], unsubscribes = 0, promise = Rejected e,
               uncaught = []\<rparr>"

text \<open>
  Lines 394 to 411. \<open>web3\<close> is \<open>None\<close> when neither \<^verbatim>\<open>options.web3\<close> nor the module's
  \<^verbatim>\<open>web3\<close> is an endpoint string or a \<^verbatim>\<open>Web3\<close> instance, so that \<^verbatim>\<open>toWeb3\<close> throws inside
  the executor. Otherwise the session subscribes once and then handles the events.
\<close>

definition waitForTxUsingSubscribePendingTransactions ::
  "'w option \<Rightarrow> ('h, 'tx) event list \<Rightarrow> ('h, 'tx) session" where
  "waitForTxUsingSubscribePendingTransactions web3 evs =
     (case web3 of
        None \<Rightarrow> failed (Error ''Couldn't get web3'')
      | Some w \<Rightarrow>
          foldl on_event
            \<lparr>subscribes = 1, listeners = [], unsubscribes = 0, promise = Pending,
             uncaught = []\<rparr> evs)"

text \<open>
  Lines 420 to 431. \<^verbatim>\<open>mode\<close> becomes whatever \<^verbatim>\<open>mode.toLowerCase()\<close> returns; the
  \<^verbatim>\<open>switch\<close> compares it with \<^verbatim>\<open>'fast'\<close> by strict equality, which only the primitive
  string satisfies, and the message of the default branch quotes it.
\<close>

definition waitForTx ::
  "js_value \<Rightarrow> 'w option \<Rightarrow> ('h, 'tx) event list \<Rightarrow> ('h, 'tx) session" where
  "waitForTx mode web3 evs =
     (case call_toLowerCase mode of
        Inl e \<Rightarrow> failed e
      | Inr mode' \<Rightarrow>
          if mode' = JSString ''fast''
          then waitForTxUsingSubscribePendingTransactions web3 evs
          else (case ToString mode' of
                  Inl e \<Rightarrow> failed e
                | Inr shown \<Rightarrow>
                    failed (Error (''waitForTx mode <'' @ shown @ ''> is not supported''))))"

text \<open>Whether an event is a predicate evaluation completing with true.\<close>

fun is_match :: "('h, 'tx) session \<Rightarrow> ('h, 'tx) event \<Rightarrow> bool" where
  "is_match s (MatchFSettled k (Inr True)) =
     (k < length (listeners s) \<and> (case listeners s ! k of AwaitMatchF tx \<Rightarrow> True | _ \<Rightarrow> False))"
| "is_match s _ = False"

text \<open>A session that subscribed is pending until a match, and unsubscribed only by matches.\<close>

definition pending_or_matched :: "('h, 'tx) session \<Rightarrow> bool" where
  "pending_or_matched s =
     (case promise s of
        Pending \<Rightarrow> unsubscribes s = 0
      | Fulfilled tx \<Rightarrow> 0 < unsubscribes s
      | Rejected e \<Rightarrow> False)"

section \<open>Properties of checkRpcSync\<close>

lemma getBlockNumbers_reqs: "fst (getBlockNumbers q i rpcs) = rpcs"
  by (induction rpcs arbitrary: i) (simp_all add: case_prod_beta)

lemma getBlockNumbers_length: "length (snd (getBlockNumbers q i rpcs)) = length rpcs"
  by (induction rpcs arbitrary: i) (simp_all add: case_prod_beta)

lemma getBlockNumbers_nth:
  "k < length rpcs \<Longrightarrow> snd (getBlockNumbers q i rpcs) ! k = q (i + k) (rpcs ! k)"
proof (induction rpcs arbitrary: i k)
  case Nil
  then show ?case by simp
next
  case (Cons rpc rest)
  show ?case
  proof (cases k)
    case 0
    then show ?thesis by (simp add: case_prod_beta)
  next
    case (Suc j)
    with Cons.prems have "j < length rest" by simp
    from Cons.IH [OF this, of "Suc i"] Suc show ?thesis
      by (simp add: case_prod_beta)
  qed
qed

lemma checkRpcSync_Some:
  "checkRpcSync q h (Some m) rpcs_arg =
     (let rpcs0 = (case rpcs_arg of None \<Rightarrow> [] | Some r \<Rightarrow> h r);
          rpcs = (if m \<in> set rpcs0 then rpcs0 else rpcs0 @ [m]);
          blocks = snd (getBlockNumbers q 0 rpcs);
          maxBlock = Math_max blocks;
          cmp = compare_main m maxBlock (elem_at blocks (indexOf rpcs m))
      in \<lparr>heap_after = (case rpcs_arg of None \<Rightarrow> h | Some r \<Rightarrow> h(r := rpcs)),
          queried = rpcs,
          console = [Checking m, MaximumBlock maxBlock]
            @ map (report_line m maxBlock) (zip rpcs blocks) @ fst cmp,
          outcome = snd cmp\<rparr>)"
  by (simp add: checkRpcSync_def Let_def case_prod_beta getBlockNumbers_reqs
        getBlockNumbers_length)

lemma checkRpcSync_fields:
  assumes "run = checkRpcSync q h (Some m) rpcs_arg"
    and "blocks = snd (getBlockNumbers q 0 (queried run))"
  shows "queried run =
           (if m \<in> set (case rpcs_arg of None \<Rightarrow> [] | Some r \<Rightarrow> h r)
            then (case rpcs_arg of None \<Rightarrow> [] | Some r \<Rightarrow> h r)
            else (case rpcs_arg of None \<Rightarrow> [] | Some r \<Rightarrow> h r) @ [m])"
    and "heap_after run = (case rpcs_arg of None \<Rightarrow> h | Some r \<Rightarrow> h(r := queried run))"
    and "console run = [Checking m, MaximumBlock (Math_max blocks)]
           @ map (report_line m (Math_max blocks)) (zip (queried run) blocks)
           @ fst (compare_main m (Math_max blocks) (elem_at blocks (indexOf (queried run) m)))"
    and "outcome run =
           snd (compare_main m (Math_max blocks) (elem_at blocks (indexOf (queried run) m)))"
proof -
  let ?rpcs0 = "case rpcs_arg of None \<Rightarrow> [] | Some r \<Rightarrow> h r"
  have q: "queried (checkRpcSync q h (Some m) rpcs_arg) =
             (if m \<in> set ?rpcs0 then ?rpcs0 else ?rpcs0 @ [m])"
    by (simp add: checkRpcSync_Some Let_def)
  show "queried run = (if m \<in> set ?rpcs0 then ?rpcs0 else ?rpcs0 @ [m])"
    using q assms(1) by simp
  show "heap_after run = (case rpcs_arg of None \<Rightarrow> h | Some r \<Rightarrow> h(r := queried run))"
    unfolding assms(1) q by (simp add: checkRpcSync_Some Let_def)
  show "console run = [Checking m, MaximumBlock (Math_max blocks)]
           @ map (report_line m (Math_max blocks)) (zip (queried run) blocks)
           @ fst (compare_main m (Math_max blocks) (elem_at blocks (indexOf (queried run) m)))"
    unfolding assms q by (simp add: checkRpcSync_Some Let_def)
  show "outcome run =
           snd (compare_main m (Math_max blocks) (elem_at blocks (indexOf (queried run) m)))"
    unfolding assms q by (simp add: checkRpcSync_Some Let_def)
qed

lemma set_non_null: "set (non_null bs) = {b. Some b \<in> set bs}"
  by (induction bs rule: non_null.induct) auto

lemma foldl_max2_Num: "foldl max2 (Num a) xs = Num (Max (insert a (set xs)))"
proof (induction xs arbitrary: a)
  case Nil
  show ?case by simp
next
  case (Cons x xs)
  have "Max (insert (max a x) (set xs)) = Max (insert a (insert x (set xs)))"
    by (cases "set xs = {}") (simp_all add: max.assoc)
  with Cons.IH [of "max a x"] show ?case by simp
qed

lemma Math_max_nonempty:
  "bs \<noteq> [] \<Longrightarrow> Math_max bs = Num (Max (set (map ToNumber bs)))"
  by (cases bs) (simp_all add: Math_max_def foldl_max2_Num)

lemma Max_ToNumber_non_null:
  assumes "non_null bs \<noteq> []" and "\<forall>b \<in> set (non_null bs). 0 \<le> b"
  shows "Max (set (map ToNumber bs)) = Max (set (non_null bs))"
proof (rule Max_eqI)
  show "finite (set (map ToNumber bs))" by simp
next
  fix y assume "y \<in> set (map ToNumber bs)"
  then obtain x where x: "x \<in> set bs" "y = ToNumber x" by auto
  from assms(1) obtain z where z: "z \<in> set (non_null bs)" by (cases "non_null bs") auto
  have zmax: "z \<le> Max (set (non_null bs))" using z by simp
  show "y \<le> Max (set (non_null bs))"
  proof (cases x)
    case None
    with x have "y = 0" by simp
    moreover have "0 \<le> z" using assms(2) z by blast
    ultimately show ?thesis using zmax by linarith
  next
    case (Some b)
    with x have "y \<in> set (non_null bs)" by (simp add: set_non_null)
    then show ?thesis by simp
  qed
next
  have "Max (set (non_null bs)) \<in> set (non_null bs)"
    using assms(1) by (intro Max_in) simp_all
  then have "Some (Max (set (non_null bs))) \<in> set bs" by (simp add: set_non_null)
  then have "ToNumber (Some (Max (set (non_null bs)))) \<in> ToNumber ` set bs" by (rule imageI)
  then show "Max (set (non_null bs)) \<in> set (map ToNumber bs)" by simp
qed

lemma Math_max_non_null:
  assumes "non_null bs \<noteq> []" and "\<forall>b \<in> set (non_null bs). 0 \<le> b"
  shows "Math_max bs = Num (Max (set (non_null bs)))"
proof -
  from assms(1) have "bs \<noteq> []" by auto
  then show ?thesis
    using Max_ToNumber_non_null [OF assms] by (simp add: Math_max_nonempty)
qed



lemma indexOf_member:
  "x \<in> set xs \<Longrightarrow>
     0 \<le> indexOf xs x \<and> indexOf xs x < int (length xs) \<and> xs ! nat (indexOf xs x) = x"
proof (induction xs)
  case Nil
  then show ?case by simp
next
  case (Cons y ys)
  show ?case
  proof (cases "y = x")
    case True
    then show ?thesis by simp
  next
    case False
    with Cons.prems have "x \<in> set ys" by simp
    from Cons.IH [OF this] False show ?thesis
      by (simp add: Let_def nat_add_distrib)
  qed
qed

lemma indexOf_first:
  "i < length xs \<Longrightarrow> xs ! i = x \<Longrightarrow> \<forall>j<i. xs ! j \<noteq> x \<Longrightarrow> indexOf xs x = int i"
proof (induction xs arbitrary: i)
  case Nil
  then show ?case by simp
next
  case (Cons y ys)
  show ?case
  proof (cases i)
    case 0
    with Cons.prems show ?thesis by simp
  next
    case (Suc k)
    with Cons.prems have k: "k < length ys" "ys ! k = x" by simp_all
    from Cons.prems(3) Suc have "y \<noteq> x" by auto
    moreover from Cons.prems(3) Suc have "\<forall>j<k. ys ! j \<noteq> x" by auto
    ultimately show ?thesis using Cons.IH [OF k] Suc by (simp add: Let_def)
  qed
qed

lemma mainRpc_queried:
  "m \<in> set (queried (checkRpcSync q h (Some m) rpcs_arg))"
  by (simp add: checkRpcSync_Some Let_def)

lemma elem_at_main:
  assumes "run = checkRpcSync q h (Some m) rpcs_arg"
    and "blocks = snd (getBlockNumbers q 0 (queried run))"
  shows "elem_at blocks (indexOf (queried run) m) = Some (blocks ! nat (indexOf (queried run) m))"
    and "nat (indexOf (queried run) m) < length (queried run)"
proof -
  from mainRpc_queried assms(1) have "m \<in> set (queried run)" by simp
  from indexOf_member [OF this] assms(2)
  show "elem_at blocks (indexOf (queried run) m) = Some (blocks ! nat (indexOf (queried run) m))"
    and "nat (indexOf (queried run) m) < length (queried run)"
    by (simp_all add: elem_at_def getBlockNumbers_length nat_less_iff)
qed

lemma non_null_Nil: "non_null bs = [] \<Longrightarrow> b \<in> set bs \<Longrightarrow> b = None"
  by (induction bs rule: non_null.induct) auto

text \<open>
  Claim C9. When the main endpoint is not in the caller's array, the array behind the
  caller's reference ends with the main endpoint appended after its former elements, in
  their former order; no other object changes.
\<close>

theorem checkRpcSync_pushes_mainRpc:
  assumes "m \<notin> set (h r)"
  shows "heap_after (checkRpcSync q h (Some m) (Some r)) = h(r := h r @ [m])"
  using assms by (simp add: checkRpcSync_Some Let_def)

theorem checkRpcSync_pushes_mainRpc_witness:
  "''A'' \<notin> set ((\<lambda>r. if r = 7 then [''B'', ''C''] else []) (7::nat))
   \<and> heap_after (checkRpcSync (\<lambda>i rpc. None) (\<lambda>r. if r = 7 then [''B'', ''C''] else [])
        (Some ''A'') (Some 7)) 7 = [''B'', ''C'', ''A'']"
proof -
  have h: "''A'' \<notin> set ((\<lambda>r. if r = 7 then [''B'', ''C''] else []) (7::nat))" by simp
  from checkRpcSync_pushes_mainRpc [of "''A''" "\<lambda>r. if r = 7 then [''B'', ''C''] else []" 7, OF h]
  show ?thesis by simp
qed

text \<open>
  Claim C8, as the code has it. The requests follow the array after the main endpoint
  was appended: one request per element, in order. An absent main endpoint is appended
  and queried once; an endpoint the caller lists twice is queried twice. The number of
  requests is the number of distinct endpoints when the caller's list has no duplicate.
\<close>

theorem checkRpcSync_queries_each_element:
  assumes "run = checkRpcSync q h (Some m) (Some r)"
  shows "queried run = heap_after run r
    \<and> queried run = (if m \<in> set (h r) then h r else h r @ [m])
    \<and> count_list (queried run) m = (if m \<in> set (h r) then count_list (h r) m else 1)
    \<and> (distinct (h r) \<longrightarrow> length (queried run) = card (set (queried run)))"
proof -
  have c2: "queried run = (if m \<in> set (h r) then h r else h r @ [m])"
    using checkRpcSync_fields(1) [OF assms refl] by simp
  have c1: "queried run = heap_after run r"
    using checkRpcSync_fields(2) [OF assms refl] by simp
  have c3: "count_list (queried run) m = (if m \<in> set (h r) then count_list (h r) m else 1)"
    unfolding c2 by (simp add: count_list_0_iff)
  have "distinct (h r) \<longrightarrow> distinct (queried run)"
    unfolding c2 by simp
  then have c4: "distinct (h r) \<longrightarrow> length (queried run) = card (set (queried run))"
    by (simp add: distinct_card)
  from c1 c2 c3 c4 show ?thesis by (intro conjI)
qed

theorem checkRpcSync_queries_each_element_witness:
  "distinct ((\<lambda>r. [''B'', ''C'']) (0::nat))
   \<and> queried (checkRpcSync (\<lambda>i rpc. None) (\<lambda>r. [''B'', ''C'']) (Some ''A'') (Some 0))
     = [''B'', ''C'', ''A'']
   \<and> length (queried (checkRpcSync (\<lambda>i rpc. None) (\<lambda>r. [''B'', ''C'']) (Some ''A'') (Some 0)))
     = card (set (queried (checkRpcSync (\<lambda>i rpc. None) (\<lambda>r. [''B'', ''C''])
         (Some ''A'') (Some 0))))"
proof -
  have h2: "distinct ((\<lambda>r. [''B'', ''C'']) (0::nat))" by simp
  note t = checkRpcSync_queries_each_element
    [OF refl, of "\<lambda>i rpc. None" "\<lambda>r. [''B'', ''C'']" "''A''" 0]
  from t [THEN conjunct2, THEN conjunct1]
  have a: "queried (checkRpcSync (\<lambda>i rpc. None) (\<lambda>r. [''B'', ''C'']) (Some ''A'') (Some 0))
     = [''B'', ''C'', ''A'']" by simp
  from t [THEN conjunct2, THEN conjunct2, THEN conjunct2] h2 have b:
    "length (queried (checkRpcSync (\<lambda>i rpc. None) (\<lambda>r. [''B'', ''C'']) (Some ''A'') (Some 0)))
     = card (set (queried (checkRpcSync (\<lambda>i rpc. None) (\<lambda>r. [''B'', ''C''])
         (Some ''A'') (Some 0))))" by simp
  from h2 a b show ?thesis by (intro conjI)
qed

text \<open>
  The count is not the number of distinct endpoints in general: an endpoint listed twice
  is asked twice.
\<close>

theorem checkRpcSync_requeries_duplicates:
  "length (queried (checkRpcSync (\<lambda>i rpc. Some 100) (\<lambda>r. [''A'', ''A'']) (Some ''A'') (Some 0))) = 2
   \<and> card (set (queried (checkRpcSync (\<lambda>i rpc. Some 100) (\<lambda>r. [''A'', ''A''])
        (Some ''A'') (Some 0)))) = 1"
  by (simp add: checkRpcSync_Some Let_def)

text \<open>
  Claim C3, as the code has it. When every request fails, \<^verbatim>\<open>checkRpcSync\<close> logs a maximum
  of 0, logs every endpoint as \<^verbatim>\<open>null\<close>, and then throws the error of an unreachable main
  endpoint; there is no error of its own for this case.
\<close>

theorem checkRpcSync_all_failed:
  assumes "run = checkRpcSync q h (Some m) rpcs_arg"
    and "non_null (snd (getBlockNumbers q 0 (queried run))) = []"
  shows "console run = [Checking m, MaximumBlock (Num 0)] @ map NullLine (queried run)
    \<and> outcome run = Inl (Error (''The main RPC '' @ m @ '' is probably down''))"
proof -
  define blocks where "blocks = snd (getBlockNumbers q 0 (queried run))"
  note f = checkRpcSync_fields [OF assms(1) blocks_def]
  note e = elem_at_main [OF assms(1) blocks_def]
  have len: "length blocks = length (queried run)"
    by (simp add: blocks_def getBlockNumbers_length)
  have none: "b = None" if "b \<in> set blocks" for b
    using non_null_Nil [OF assms(2)] that by (simp add: blocks_def)
  have rep: "blocks = replicate (length (queried run)) None"
    using len none by (intro replicate_eqI) simp_all
  from e(2) have ne: "blocks \<noteq> []" using len by auto
  from e(2) have pos: "0 < length (queried run)" by (cases "queried run") simp_all
  have "set (map ToNumber blocks) = {0}"
    by (subst rep) (use pos in simp)
  then have mx: "Math_max blocks = Num 0"
    using Math_max_nonempty [OF ne] by simp
  have "blocks ! nat (indexOf (queried run) m) = None"
    using e(2) len none by simp
  then have cmp: "compare_main m (Math_max blocks) (elem_at blocks (indexOf (queried run) m))
      = ([], Inl (Error (''The main RPC '' @ m @ '' is probably down'')))"
    using e(1) by simp
  have "map (report_line m (Num 0)) (zip (queried run) blocks) = map NullLine (queried run)"
    by (subst rep) (simp add: list_eq_iff_nth_eq)
  with f(3,4) cmp mx show ?thesis by simp
qed

theorem checkRpcSync_all_failed_witness:
  "non_null (snd (getBlockNumbers (\<lambda>i rpc. None) 0
       (queried (checkRpcSync (\<lambda>i rpc. None) (\<lambda>r. [''B'']) (Some ''A'') (Some 0))))) = []
   \<and> outcome (checkRpcSync (\<lambda>i rpc. None) (\<lambda>r. [''B'']) (Some ''A'') (Some 0))
     = Inl (Error ''The main RPC A is probably down'')"
proof -
  have h: "non_null (snd (getBlockNumbers (\<lambda>i rpc. None) 0
       (queried (checkRpcSync (\<lambda>i rpc. None) (\<lambda>r. [''B'']) (Some ''A'') (Some 0))))) = []"
    by (simp add: checkRpcSync_Some Let_def)
  from checkRpcSync_all_failed [OF refl h] h show ?thesis by simp
qed

text \<open>
  With every request failing, each endpoint still gets its report line and the error is
  the one of the main endpoint.
\<close>

theorem checkRpcSync_all_failed_still_classifies:
  "console (checkRpcSync (\<lambda>i rpc. None) (\<lambda>r. [''B'']) (Some ''A'') (Some 0))
     = [Checking ''A'', MaximumBlock (Num 0), NullLine ''B'', NullLine ''A'']
   \<and> outcome (checkRpcSync (\<lambda>i rpc. None) (\<lambda>r. [''B'']) (Some ''A'') (Some 0))
     = Inl (Error ''The main RPC A is probably down'')"
  by (simp add: checkRpcSync_Some Let_def Math_max_def elem_at_def)


lemma blocks_nth:
  assumes "blocks = snd (getBlockNumbers q 0 rpcs)" and "i < length rpcs"
  shows "blocks ! i = q i (rpcs ! i)"
  using getBlockNumbers_nth [OF assms(2), of q 0] assms(1) by simp

lemma compare_main_outcome:
  "snd (compare_main m (Num mx) (Some hb)) =
     (case hb of
        None \<Rightarrow> Inl (Error (''The main RPC '' @ m @ '' is probably down''))
      | Some b \<Rightarrow>
          if b = mx \<or> b = mx - 1 then Inr ()
          else Inl (Error (''The main RPC '' @ m @ '' is at block '' @ show_int b @ ''/''
                 @ show_int mx)))"
  by (cases hb) auto

text \<open>
  Claim C4. With at least one successful request and non-negative heights,
  \<^verbatim>\<open>checkRpcSync\<close> returns exactly when the main endpoint's height is the maximum or one
  less. The main endpoint's height is the answer to the request at its first position
  in the array. When that request failed the call throws an error whose message is
  \<^verbatim>\<open>The main RPC\<close> followed by \<^verbatim>\<open><endpoint> is probably down\<close>; when the height is more than
  one block behind it throws one whose message is \<^verbatim>\<open>The main RPC\<close> followed by
  \<^verbatim>\<open><endpoint> is at block <h>/<maxHeight>\<close>.
\<close>

theorem checkRpcSync_main_verdict:
  assumes "run = checkRpcSync q h (Some m) rpcs_arg"
    and "blocks = snd (getBlockNumbers q 0 (queried run))"
    and "non_null blocks \<noteq> []"
    and "\<forall>b \<in> set (non_null blocks). 0 \<le> b"
    and "maxHeight = Max (set (non_null blocks))"
    and "i0 < length (queried run)"
    and "queried run ! i0 = m"
    and "\<forall>j<i0. queried run ! j \<noteq> m"
  shows "(outcome run = Inr ()) = (q i0 m = Some maxHeight \<or> q i0 m = Some (maxHeight - 1))
    \<and> (q i0 m = None \<longrightarrow>
         outcome run = Inl (Error (''The main RPC '' @ m @ '' is probably down'')))
    \<and> (\<forall>b. q i0 m = Some b \<and> b < maxHeight - 1 \<longrightarrow>
         outcome run = Inl (Error (''The main RPC '' @ m @ '' is at block '' @ show_int b
           @ ''/'' @ show_int maxHeight)))"
proof -
  have idx: "indexOf (queried run) m = int i0"
    using indexOf_first [OF assms(6,7,8)] .
  have main: "blocks ! i0 = q i0 m"
    using blocks_nth [OF assms(2,6)] assms(7) by simp
  have mx: "Math_max blocks = Num maxHeight"
    using Math_max_non_null [OF assms(3,4)] assms(5) by simp
  have "elem_at blocks (indexOf (queried run) m) = Some (q i0 m)"
    using elem_at_main(1) [OF assms(1,2)] idx main by simp
  with checkRpcSync_fields(4) [OF assms(1,2)] mx
  have out: "outcome run = snd (compare_main m (Num maxHeight) (Some (q i0 m)))" by simp
  show ?thesis
    unfolding out compare_main_outcome by (auto split: option.splits)
qed

theorem checkRpcSync_main_verdict_witness:
  "non_null (snd (getBlockNumbers (\<lambda>i rpc. if rpc = ''A'' then Some 100 else Some 105) 0
      (queried (checkRpcSync (\<lambda>i rpc. if rpc = ''A'' then Some 100 else Some 105)
         (\<lambda>r. [''A'', ''B'']) (Some ''A'') (Some 0))))) = [100, 105]
   \<and> queried (checkRpcSync (\<lambda>i rpc. if rpc = ''A'' then Some 100 else Some 105)
         (\<lambda>r. [''A'', ''B'']) (Some ''A'') (Some 0)) ! 0 = ''A''
   \<and> outcome (checkRpcSync (\<lambda>i rpc. if rpc = ''A'' then Some 100 else Some 105)
         (\<lambda>r. [''A'', ''B'']) (Some ''A'') (Some 0))
       = Inl (Error ''The main RPC A is at block 100/105'')
   \<and> non_null (snd (getBlockNumbers (\<lambda>i rpc. if rpc = ''A'' then None else Some 50) 0
      (queried (checkRpcSync (\<lambda>i rpc. if rpc = ''A'' then None else Some 50)
         (\<lambda>r. [''B'']) (Some ''A'') (Some 0))))) = [50]
   \<and> queried (checkRpcSync (\<lambda>i rpc. if rpc = ''A'' then None else Some 50)
         (\<lambda>r. [''B'']) (Some ''A'') (Some 0)) ! 1 = ''A''
   \<and> outcome (checkRpcSync (\<lambda>i rpc. if rpc = ''A'' then None else Some 50)
         (\<lambda>r. [''B'']) (Some ''A'') (Some 0))
       = Inl (Error ''The main RPC A is probably down'')"
proof -
  let ?q = "\<lambda>(i::nat) rpc. if rpc = ''A'' then Some (100::int) else Some 105"
  let ?run = "checkRpcSync ?q (\<lambda>r. [''A'', ''B'']) (Some ''A'') (Some 0)"
  have qs: "queried ?run = [''A'', ''B'']"
    by (simp add: checkRpcSync_Some Let_def)
  have nn: "non_null (snd (getBlockNumbers ?q 0 (queried ?run))) = [100, 105]"
    unfolding qs by simp
  have h3: "non_null (snd (getBlockNumbers ?q 0 (queried ?run))) \<noteq> []"
    unfolding nn by simp
  have h4: "\<forall>b \<in> set (non_null (snd (getBlockNumbers ?q 0 (queried ?run)))). 0 \<le> b"
    unfolding nn by simp
  have h5: "(105::int) = Max (set (non_null (snd (getBlockNumbers ?q 0 (queried ?run)))))"
    unfolding nn by simp
  have h6: "0 < length (queried ?run)" unfolding qs by simp
  have h7: "queried ?run ! 0 = ''A''" unfolding qs by simp
  have h8: "\<forall>j<0::nat. queried ?run ! j \<noteq> ''A''" by simp
  have s: "show_int 100 = ''100''" "show_int 105 = ''105''"
    by (simp_all add: show_int_def show_nat.simps digit_char_def)
  from checkRpcSync_main_verdict [OF refl refl h3 h4 h5 h6 h7 h8, THEN conjunct2, THEN conjunct2]
  have "outcome ?run = Inl (Error (''The main RPC '' @ ''A'' @ '' is at block '' @ show_int 100
           @ ''/'' @ show_int 105))" by simp
  with s have a: "outcome ?run = Inl (Error ''The main RPC A is at block 100/105'')" by simp
  let ?q' = "\<lambda>(i::nat) rpc. if rpc = ''A'' then None else Some (50::int)"
  let ?run' = "checkRpcSync ?q' (\<lambda>r. [''B'']) (Some ''A'') (Some 0)"
  have qs': "queried ?run' = [''B'', ''A'']"
    by (simp add: checkRpcSync_Some Let_def)
  have nn': "non_null (snd (getBlockNumbers ?q' 0 (queried ?run'))) = [50]"
    unfolding qs' by simp
  have k3: "non_null (snd (getBlockNumbers ?q' 0 (queried ?run'))) \<noteq> []"
    unfolding nn' by simp
  have k4: "\<forall>b \<in> set (non_null (snd (getBlockNumbers ?q' 0 (queried ?run')))). 0 \<le> b"
    unfolding nn' by simp
  have k5: "(50::int) = Max (set (non_null (snd (getBlockNumbers ?q' 0 (queried ?run')))))"
    unfolding nn' by simp
  have k6: "1 < length (queried ?run')" unfolding qs' by simp
  have k7: "queried ?run' ! 1 = ''A''" unfolding qs' by simp
  have k8: "\<forall>j<1::nat. queried ?run' ! j \<noteq> ''A''" unfolding qs' by simp
  from checkRpcSync_main_verdict [OF refl refl k3 k4 k5 k6 k7 k8, THEN conjunct2, THEN conjunct1]
  have b: "outcome ?run' = Inl (Error ''The main RPC A is probably down'')" by simp
  from nn h7 a nn' k7 b show ?thesis by (intro conjI)
qed

lemma classification_report_line:
  "classification (report_line m (Num mx) (rpc, hb)) =
     Some (case hb of
             None \<Rightarrow> Unreachable
           | Some b \<Rightarrow> if b = mx then UpToDate else if b = mx - 1 then OneBehind else Stale)"
  by (cases hb) (auto simp: blockColor_def)

text \<open>
  Claim C5. With at least one successful request and non-negative heights, the line
  reported for each endpoint is green (up to date) exactly when its height is the
  maximum, yellow (one behind) exactly when it is the maximum minus one, the
  \<^verbatim>\<open>null\<close> line (unreachable) exactly when its request failed, and red (stale) for every
  other height. The last conjunct is the loop body against any maximum \<open>mb\<close>: a height
  ahead of it also gets a line, a red one, and nothing is thrown.
\<close>

theorem checkRpcSync_classification:
  assumes "run = checkRpcSync q h (Some m) rpcs_arg"
    and "blocks = snd (getBlockNumbers q 0 (queried run))"
    and "non_null blocks \<noteq> []"
    and "\<forall>b \<in> set (non_null blocks). 0 \<le> b"
    and "maxHeight = Max (set (non_null blocks))"
    and "i < length (queried run)"
    and "height = q i (queried run ! i)"
    and "c = classification (console run ! (2 + i))"
  shows "(c = Some UpToDate) = (height = Some maxHeight)
    \<and> (c = Some OneBehind) = (height = Some (maxHeight - 1))
    \<and> (c = Some Unreachable) = (height = None)
    \<and> (c = Some Stale) = (\<exists>b. height = Some b \<and> b \<noteq> maxHeight \<and> b \<noteq> maxHeight - 1)
    \<and> classification (report_line m (Num mb) (rpc, Some b')) =
        Some (if b' = mb then UpToDate else if b' = mb - 1 then OneBehind else Stale)"
proof -
  have len: "length blocks = length (queried run)"
    using assms(2) by (simp add: getBlockNumbers_length)
  have hb: "blocks ! i = height"
    using blocks_nth [OF assms(2,6)] assms(7) by simp
  have mx: "Math_max blocks = Num maxHeight"
    using Math_max_non_null [OF assms(3,4)] assms(5) by simp
  have "console run ! (2 + i) =
          map (report_line m (Num maxHeight)) (zip (queried run) blocks) ! i"
    using checkRpcSync_fields(3) [OF assms(1,2)] mx assms(6) len
    by (simp add: nth_append)
  also have "\<dots> = report_line m (Num maxHeight) (queried run ! i, height)"
    using assms(6) len hb by simp
  finally have c: "c = Some (case height of
             None \<Rightarrow> Unreachable
           | Some b \<Rightarrow> if b = maxHeight then UpToDate
                        else if b = maxHeight - 1 then OneBehind else Stale)"
    using assms(8) by (simp add: classification_report_line)
  have last: "classification (report_line m (Num mb) (rpc, Some b')) =
        Some (if b' = mb then UpToDate else if b' = mb - 1 then OneBehind else Stale)"
    by (simp only: classification_report_line option.case)
  show ?thesis
    unfolding c using last by (cases height) auto
qed

theorem checkRpcSync_classification_witness:
  "non_null (snd (getBlockNumbers (\<lambda>i rpc. if rpc = ''C'' then Some 99 else Some 100) 0
      (queried (checkRpcSync (\<lambda>i rpc. if rpc = ''C'' then Some 99 else Some 100)
         (\<lambda>r. [''A'', ''B'', ''C'']) (Some ''A'') (Some 0))))) = [100, 100, 99]
   \<and> classification (console (checkRpcSync (\<lambda>i rpc. if rpc = ''C'' then Some 99 else Some 100)
         (\<lambda>r. [''A'', ''B'', ''C'']) (Some ''A'') (Some 0)) ! (2 + 2)) = Some OneBehind
   \<and> classification (report_line ''A'' (Num 100) (''B'', Some 101)) = Some Stale"
proof -
  let ?q = "\<lambda>(i::nat) rpc. if rpc = ''C'' then Some (99::int) else Some 100"
  let ?run = "checkRpcSync ?q (\<lambda>r. [''A'', ''B'', ''C'']) (Some ''A'') (Some 0)"
  have qs: "queried ?run = [''A'', ''B'', ''C'']"
    by (simp add: checkRpcSync_Some Let_def)
  have nn: "non_null (snd (getBlockNumbers ?q 0 (queried ?run))) = [100, 100, 99]"
    unfolding qs by simp
  have h3: "non_null (snd (getBlockNumbers ?q 0 (queried ?run))) \<noteq> []"
    unfolding nn by simp
  have h4: "\<forall>b \<in> set (non_null (snd (getBlockNumbers ?q 0 (queried ?run)))). 0 \<le> b"
    unfolding nn by simp
  have h5: "(100::int) = Max (set (non_null (snd (getBlockNumbers ?q 0 (queried ?run)))))"
    unfolding nn by simp
  have h6: "2 < length (queried ?run)" unfolding qs by simp
  have h7: "Some (99::int) = ?q 2 (queried ?run ! 2)" unfolding qs by simp
  note t = checkRpcSync_classification [OF refl refl h3 h4 h5 h6 h7 refl,
      where mb = 100 and rpc = "''B''" and b' = 101]
  from t [THEN conjunct2, THEN conjunct1]
  have a: "classification (console ?run ! (2 + 2)) = Some OneBehind" by simp
  from t [THEN conjunct2, THEN conjunct2, THEN conjunct2, THEN conjunct2]
  have b: "classification (report_line ''A'' (Num 100) (''B'', Some 101)) = Some Stale" by simp
  from nn a b show ?thesis by blast
qed

section \<open>Properties of waitForTx\<close>

lemma on_event_subscribes: "subscribes (on_event s e) = subscribes s"
  by (cases e) (auto split: listener.splits sum.splits option.splits bool.splits)

lemma on_event_unsubscribes:
  "unsubscribes (on_event s e) = unsubscribes s + (if is_match s e then 1 else 0)"
proof (cases e)
  case (MatchFSettled k r)
  show ?thesis
  proof (cases r)
    case (Inl err)
    with MatchFSettled show ?thesis by (auto split: listener.splits)
  next
    case (Inr b)
    with MatchFSettled show ?thesis by (cases b) (auto split: listener.splits)
  qed
qed (auto split: listener.splits sum.splits option.splits)

lemma foldl_on_event_subscribes: "subscribes (foldl on_event s evs) = subscribes s"
  by (induction evs arbitrary: s) (simp_all add: on_event_subscribes)

lemma on_event_settled:
  "promise s \<noteq> Pending \<Longrightarrow> promise (on_event s e) = promise s"
proof (cases e)
  case (MatchFSettled k r)
  assume "promise s \<noteq> Pending"
  then have "resolve tx (promise s) = promise s" for tx
    by (cases "promise s") simp_all
  with MatchFSettled show ?thesis
    by (auto split: listener.splits sum.splits bool.splits)
qed (auto split: listener.splits sum.splits option.splits)

lemma foldl_on_event_settled:
  "promise s \<noteq> Pending \<Longrightarrow> promise (foldl on_event s evs) = promise s"
  by (induction evs arbitrary: s) (simp_all add: on_event_settled)

lemma on_event_match:
  assumes "k < length (listeners s)" and "listeners s ! k = AwaitMatchF tx"
  shows "promise (on_event s (MatchFSettled k (Inr True))) = resolve tx (promise s)"
  using assms by simp

lemma on_event_error:
  assumes "e = FeedError err \<or>
     (\<exists>k tx. e = MatchFSettled k (Inl err) \<and> k < length (listeners s)
        \<and> listeners s ! k = AwaitMatchF tx)"
  shows "unsubscribes (on_event s e) = unsubscribes s"
    and "uncaught (on_event s e) = uncaught s @ [err]"
  using assms by auto

lemma on_event_invariant:
  assumes "pending_or_matched s"
  shows "pending_or_matched (on_event s e)"
proof (cases "is_match s e")
  case False
  then have u: "unsubscribes (on_event s e) = unsubscribes s"
    by (simp add: on_event_unsubscribes)
  have "promise (on_event s e) = promise s"
  proof (cases e)
    case (MatchFSettled k r)
    show ?thesis
    proof (cases r)
      case (Inl err)
      with MatchFSettled show ?thesis by (auto split: listener.splits)
    next
      case (Inr b)
      with MatchFSettled False show ?thesis by (cases b) (auto split: listener.splits)
    qed
  qed (auto split: listener.splits sum.splits option.splits)
  with u assms show ?thesis by (simp add: pending_or_matched_def split: promise.splits)
next
  case True
  then obtain k where e: "e = MatchFSettled k (Inr True)" and k: "k < length (listeners s)"
    by (cases "(s, e)" rule: is_match.cases) auto
  from True e obtain tx where tx: "listeners s ! k = AwaitMatchF tx"
    by (cases "listeners s ! k") auto
  have "promise (on_event s e) = resolve tx (promise s)"
    unfolding e using on_event_match [OF k tx] .
  moreover have "unsubscribes (on_event s e) = Suc (unsubscribes s)"
    using True by (simp add: on_event_unsubscribes)
  ultimately show ?thesis
    using assms by (cases "promise s") (simp_all add: pending_or_matched_def)
qed

lemma foldl_on_event_invariant:
  "pending_or_matched s \<Longrightarrow> pending_or_matched (foldl on_event s evs)"
  by (induction evs arbitrary: s) (simp_all add: on_event_invariant)

lemma toLowerCase_fast [simp]: "toLowerCase ''fast'' = ''fast''"
  by (simp add: toLowerCase_def toLower_char_def)

lemma waitForTx_fast:
  "toLowerCase mode = ''fast'' \<Longrightarrow>
   waitForTx (JSString mode) (Some w) evs =
     foldl on_event \<lparr>subscribes = 1, listeners = [], unsubscribes = 0, promise = Pending,
       uncaught = []\<rparr> evs"
  by (simp add: waitForTx_def waitForTxUsingSubscribePendingTransactions_def)

lemma waitForTx_fast_snoc:
  "toLowerCase mode = ''fast'' \<Longrightarrow>
   waitForTx (JSString mode) (Some w) (evs @ evs') =
     foldl on_event (waitForTx (JSString mode) (Some w) evs) evs'"
  by (simp add: waitForTx_fast)

lemma waitForTx_fast_invariant:
  "toLowerCase mode = ''fast'' \<Longrightarrow> pending_or_matched (waitForTx (JSString mode) (Some w) evs)"
  unfolding waitForTx_fast
  by (rule foldl_on_event_invariant) (simp add: pending_or_matched_def)

text \<open>
  Claim C2, as the code has it. In a session opened in \<^verbatim>\<open>fast\<close> mode, the first predicate
  evaluation that completes with true resolves the call with its transaction, and the
  call keeps that value whatever is delivered afterwards. Every predicate evaluation
  that completes with true calls \<^verbatim>\<open>unsubscribe\<close>: the count of calls grows by one with each
  such event and with no other event, so the call is pending exactly as long as no
  call was made.
\<close>

theorem waitForTx_first_match_resolves:
  assumes "s = waitForTx (JSString ''fast'') (Some w) pre"
    and "k < length (listeners s)"
    and "listeners s ! k = AwaitMatchF tx"
    and "unsubscribes s = 0"
  shows "promise (waitForTx (JSString ''fast'') (Some w)
            (pre @ MatchFSettled k (Inr True) # post)) = Fulfilled tx
    \<and> unsubscribes (waitForTx (JSString ''fast'') (Some w) (evs @ [e])) =
        unsubscribes (waitForTx (JSString ''fast'') (Some w) evs)
          + (if is_match (waitForTx (JSString ''fast'') (Some w) evs) e then 1 else 0)
    \<and> (promise (waitForTx (JSString ''fast'') (Some w) evs) = Pending) =
        (unsubscribes (waitForTx (JSString ''fast'') (Some w) evs) = 0)
    \<and> subscribes (waitForTx (JSString ''fast'') (Some w) evs) = 1"
proof -
  have "pending_or_matched s"
    unfolding assms(1) by (rule waitForTx_fast_invariant) simp
  with assms(4) have pend: "promise s = Pending"
    by (cases "promise s") (simp_all add: pending_or_matched_def)
  let ?s' = "on_event s (MatchFSettled k (Inr True))"
  have "promise ?s' = Fulfilled tx"
    using on_event_match [OF assms(2,3)] pend by simp
  then have "promise (foldl on_event ?s' post) = Fulfilled tx"
    using foldl_on_event_settled [of ?s' post] by simp
  then have a: "promise (waitForTx (JSString ''fast'') (Some w)
            (pre @ MatchFSettled k (Inr True) # post)) = Fulfilled tx"
    unfolding assms(1) by (simp add: waitForTx_fast)
  have b: "unsubscribes (waitForTx (JSString ''fast'') (Some w) (evs @ [e])) =
        unsubscribes (waitForTx (JSString ''fast'') (Some w) evs)
          + (if is_match (waitForTx (JSString ''fast'') (Some w) evs) e then 1 else 0)"
    by (simp only: waitForTx_fast_snoc toLowerCase_fast foldl.simps on_event_unsubscribes)
  have "pending_or_matched (waitForTx (JSString ''fast'') (Some w) evs)"
    by (rule waitForTx_fast_invariant) simp
  then have c: "(promise (waitForTx (JSString ''fast'') (Some w) evs) = Pending) =
        (unsubscribes (waitForTx (JSString ''fast'') (Some w) evs) = 0)"
    by (cases "promise (waitForTx (JSString ''fast'') (Some w) evs)")
      (simp_all add: pending_or_matched_def)
  have "subscribes (waitForTx (JSString ''fast'') (Some w) evs) = 1"
    by (simp add: waitForTx_fast foldl_on_event_subscribes)
  with a b c show ?thesis by blast
qed


theorem waitForTx_first_match_resolves_witness:
  "listeners (waitForTx (JSString ''fast'') (Some ())
      [Data ''h1'', Data ''h2'', GetTransactionSettled 0 (Inr (Some ''t1'')),
       GetTransactionSettled 1 (Inr (Some ''t2''))]) ! 1 = AwaitMatchF ''t2''
   \<and> unsubscribes (waitForTx (JSString ''fast'') (Some ())
      [Data ''h1'', Data ''h2'', GetTransactionSettled 0 (Inr (Some ''t1'')),
       GetTransactionSettled 1 (Inr (Some ''t2''))]) = 0
   \<and> promise (waitForTx (JSString ''fast'') (Some ())
      ([Data ''h1'', Data ''h2'', GetTransactionSettled 0 (Inr (Some ''t1'')),
        GetTransactionSettled 1 (Inr (Some ''t2''))]
       @ MatchFSettled 1 (Inr True) # [MatchFSettled 0 (Inr True)])) = Fulfilled ''t2''"
proof -
  let ?pre = "[Data ''h1'', Data ''h2'', GetTransactionSettled 0 (Inr (Some ''t1'')),
       GetTransactionSettled 1 (Inr (Some ''t2''))] :: (string, string) event list"
  let ?s = "waitForTx (JSString ''fast'') (Some ()) ?pre"
  have s: "?s = \<lparr>subscribes = 1, listeners = [AwaitMatchF ''t1'', AwaitMatchF ''t2''],
      unsubscribes = 0, promise = Pending, uncaught = []\<rparr>"
    by (simp add: waitForTx_fast)
  have h2: "1 < length (listeners ?s)" unfolding s by simp
  have h3: "listeners ?s ! 1 = AwaitMatchF ''t2''" unfolding s by simp
  have h4: "unsubscribes ?s = 0" unfolding s by simp
  from h3 h4 waitForTx_first_match_resolves [OF refl h2 h3 h4, THEN conjunct1,
      of "[MatchFSettled 0 (Inr True)]"]
  show ?thesis by (intro conjI)
qed

text \<open>
  Two evaluations in flight that both match call \<^verbatim>\<open>unsubscribe\<close> twice; a session that ends
  on a feed error has called it not at all.
\<close>

theorem waitForTx_two_matches_unsubscribe_twice:
  "unsubscribes (waitForTx (JSString ''fast'') (Some ())
      [Data ''h1'', Data ''h2'', GetTransactionSettled 0 (Inr (Some ''t1'')),
       GetTransactionSettled 1 (Inr (Some ''t2'')),
       MatchFSettled 1 (Inr True), MatchFSettled 0 (Inr True)]) = 2
   \<and> unsubscribes (waitForTx (JSString ''fast'') (Some ())
      [Data ''h1'', FeedError (Error ''connection lost'')] :: (string, string) session) = 0"
  by (simp add: waitForTx_fast)

text \<open>
  Claim C6, as the code has it. A feed error or an error of the predicate makes no
  \<^verbatim>\<open>unsubscribe\<close> call: the error is thrown from the listener in which it arises (the
  \<^verbatim>\<open>'error'\<close> listener rethrows it, the \<^verbatim>\<open>async\<close> \<^verbatim>\<open>'data'\<close> listener rejects its own promise),
  and \<^verbatim>\<open>unsubscribe\<close> is called only by a predicate evaluation that matches.
\<close>

theorem waitForTx_error_no_unsubscribe:
  assumes "s = waitForTx (JSString ''fast'') (Some w) pre"
    and "e = FeedError err \<or>
       (\<exists>k tx. e = MatchFSettled k (Inl err) \<and> k < length (listeners s)
          \<and> listeners s ! k = AwaitMatchF tx)"
  shows "unsubscribes (waitForTx (JSString ''fast'') (Some w) (pre @ [e])) = unsubscribes s
    \<and> uncaught (waitForTx (JSString ''fast'') (Some w) (pre @ [e])) = uncaught s @ [err]"
proof -
  have "waitForTx (JSString ''fast'') (Some w) (pre @ [e]) = on_event s e"
    unfolding assms(1) by (simp add: waitForTx_fast)
  with on_event_error [OF assms(2)] show ?thesis by simp
qed

theorem waitForTx_error_no_unsubscribe_witness:
  "unsubscribes (waitForTx (JSString ''fast'') (Some ())
      ([Data ''h1'', GetTransactionSettled 0 (Inr (Some ''t1''))]
       @ [MatchFSettled 0 (Inl (Error ''boom''))])) = 0
   \<and> uncaught (waitForTx (JSString ''fast'') (Some ())
      ([Data ''h1'', GetTransactionSettled 0 (Inr (Some ''t1''))]
       @ [MatchFSettled 0 (Inl (Error ''boom''))])) = [Error ''boom'']
   \<and> unsubscribes (waitForTx (JSString ''fast'') (Some ())
      ([Data ''h1''] @ [FeedError (Error ''connection lost'')]) :: (string, string) session) = 0"
proof -
  let ?pre = "[Data ''h1'', GetTransactionSettled 0 (Inr (Some ''t1''))]
       :: (string, string) event list"
  let ?s = "waitForTx (JSString ''fast'') (Some ()) ?pre"
  have s: "?s = \<lparr>subscribes = 1, listeners = [AwaitMatchF ''t1''],
      unsubscribes = 0, promise = Pending, uncaught = []\<rparr>"
    by (simp add: waitForTx_fast)
  have h2: "MatchFSettled 0 (Inl (Error ''boom'')) = FeedError (Error ''boom'') \<or>
       (\<exists>k tx. MatchFSettled 0 (Inl (Error ''boom'')) = MatchFSettled k (Inl (Error ''boom''))
          \<and> k < length (listeners ?s) \<and> listeners ?s ! k = AwaitMatchF tx)"
    unfolding s by simp
  note a = waitForTx_error_no_unsubscribe [OF refl h2]
  let ?pre2 = "[Data ''h1''] :: (string, string) event list"
  let ?s2 = "waitForTx (JSString ''fast'') (Some ()) ?pre2"
  have s2: "unsubscribes ?s2 = 0" by (simp add: waitForTx_fast)
  have h2': "FeedError (Error ''connection lost'') = FeedError (Error ''connection lost'') \<or>
       (\<exists>k tx. FeedError (Error ''connection lost'') = MatchFSettled k (Inl (Error ''connection lost''))
          \<and> k < length (listeners ?s2) \<and> listeners ?s2 ! k = AwaitMatchF tx)"
    by simp
  note b = waitForTx_error_no_unsubscribe [OF refl h2', THEN conjunct1]
  from a b s s2 show ?thesis by simp
qed

text \<open>
  After a feed error, and after an error of the predicate, no \<^verbatim>\<open>unsubscribe\<close> call was
  made and the promise of the call is still pending.
\<close>

theorem waitForTx_errors_leave_subscription_open:
  "unsubscribes (waitForTx (JSString ''fast'') (Some ())
      [FeedError (Error ''connection lost'')] :: (string, string) session) = 0
   \<and> promise (waitForTx (JSString ''fast'') (Some ())
      [FeedError (Error ''connection lost'')] :: (string, string) session) = Pending
   \<and> unsubscribes (waitForTx (JSString ''fast'') (Some ())
      [Data ''h1'', GetTransactionSettled 0 (Inr (Some ''t1'')),
       MatchFSettled 0 (Inl (Error ''boom''))]) = 0
   \<and> promise (waitForTx (JSString ''fast'') (Some ())
      [Data ''h1'', GetTransactionSettled 0 (Inr (Some ''t1'')),
       MatchFSettled 0 (Inl (Error ''boom''))]) = Pending"
  by (simp add: waitForTx_fast)

text \<open>
  Claim C7, as the code has it. A mode string that does not lower-case to \<^verbatim>\<open>fast\<close> makes
  \<^verbatim>\<open>waitForTx\<close> throw \<^verbatim>\<open>waitForTx mode <mode> is not supported\<close>, quoting the lower-cased
  mode, with no subscription opened; \<^verbatim>\<open>cheap\<close> is such a mode.
\<close>

theorem waitForTx_unsupported_mode:
  assumes "toLowerCase mode \<noteq> ''fast''"
  shows "waitForTx (JSString mode) web3 evs =
           failed (Error (''waitForTx mode <'' @ toLowerCase mode @ ''> is not supported''))
    \<and> subscribes (waitForTx (JSString mode) web3 evs) = 0
    \<and> promise (waitForTx (JSString ''cheap'') web3 evs) =
        Rejected (Error ''waitForTx mode <cheap> is not supported'')"
proof -
  have "toLowerCase ''cheap'' = ''cheap''"
    by (simp add: toLowerCase_def toLower_char_def)
  then have "promise (waitForTx (JSString ''cheap'') web3 evs) =
        Rejected (Error ''waitForTx mode <cheap> is not supported'')"
    by (simp add: waitForTx_def failed_def)
  with assms show ?thesis by (simp add: waitForTx_def failed_def)
qed

theorem waitForTx_unsupported_mode_witness:
  "toLowerCase ''Cheap'' \<noteq> ''fast''
   \<and> (waitForTx (JSString ''Cheap'') (Some ()) [Data ''h1''] :: (string, string) session) =
       failed (Error ''waitForTx mode <cheap> is not supported'')
   \<and> subscribes (waitForTx (JSString ''Cheap'') (Some ()) [Data ''h1'']
       :: (string, string) session) = 0"
proof -
  have l: "toLowerCase ''Cheap'' = ''cheap''"
    by (simp add: toLowerCase_def toLower_char_def)
  then have h: "toLowerCase ''Cheap'' \<noteq> ''fast''" by simp
  note t = waitForTx_unsupported_mode
    [OF h, of "Some ()" "[Data ''h1''] :: (string, string) event list"]
  from t [THEN conjunct1] l
  have a: "(waitForTx (JSString ''Cheap'') (Some ()) [Data ''h1''] :: (string, string) session) =
       failed (Error ''waitForTx mode <cheap> is not supported'')" by simp
  from h a t [THEN conjunct2, THEN conjunct1] show ?thesis by (intro conjI)
qed

text \<open>The mode \<^verbatim>\<open>FAST\<close> is a string other than \<^verbatim>\<open>fast\<close>, and it subscribes.\<close>

theorem waitForTx_upper_case_fast_subscribes:
  "subscribes (waitForTx (JSString ''FAST'') (Some ()) [] :: (string, string) session) = 1
   \<and> promise (waitForTx (JSString ''FAST'') (Some ()) [] :: (string, string) session) = Pending"
  by (simp add: waitForTx_def waitForTxUsingSubscribePendingTransactions_def toLowerCase_def
        toLower_char_def)

lemma capitalizations_fast:
  "capitalizations ''fast'' =
     [''fast'', ''Fast'', ''fAst'', ''FAst'', ''faSt'', ''FaSt'', ''fASt'', ''FASt'',
      ''fasT'', ''FasT'', ''fAsT'', ''FAsT'', ''faST'', ''FaST'', ''fAST'', ''FAST'']"
  by code_simp

lemma lower_chars:
  "toLower_char CHR ''f'' = CHR ''f''" "toLower_char CHR ''F'' = CHR ''f''"
  "toLower_char CHR ''a'' = CHR ''a''" "toLower_char CHR ''A'' = CHR ''a''"
  "toLower_char CHR ''s'' = CHR ''s''" "toLower_char CHR ''S'' = CHR ''s''"
  "toLower_char CHR ''t'' = CHR ''t''" "toLower_char CHR ''T'' = CHR ''t''"
  by (simp_all add: toLower_char_def)

lemma capitalizations_fast_lower:
  "mode \<in> set (capitalizations ''fast'') \<Longrightarrow> toLowerCase mode = ''fast''"
  unfolding capitalizations_fast by (auto simp: toLowerCase_def lower_chars)

lemma waitForTx_subscribed_not_rejected:
  "promise (waitForTxUsingSubscribePendingTransactions web3 evs) \<noteq>
     Rejected (Error (''waitForTx mode <'' @ x @ ''> is not supported''))"
proof (cases web3)
  case None
  then show ?thesis
    by (simp add: waitForTxUsingSubscribePendingTransactions_def failed_def)
next
  case (Some w)
  have "pending_or_matched (foldl on_event
      \<lparr>subscribes = 1, listeners = [], unsubscribes = 0, promise = Pending, uncaught = []\<rparr> evs)"
    by (rule foldl_on_event_invariant) (simp add: pending_or_matched_def)
  with Some show ?thesis
    by (auto simp: waitForTxUsingSubscribePendingTransactions_def pending_or_matched_def
          split: promise.splits)
qed

lemma waitForTx_JSString:
  "waitForTx (JSString s) web3 evs =
     (if toLowerCase s = ''fast'' then waitForTxUsingSubscribePendingTransactions web3 evs
      else failed (Error (''waitForTx mode <'' @ toLowerCase s @ ''> is not supported'')))"
  by (simp add: waitForTx_def)

text \<open>
  Claim C10, as the code has it. \<^verbatim>\<open>waitForTx\<close> calls \<^verbatim>\<open>mode.toLowerCase()\<close> before the
  \<^verbatim>\<open>switch\<close>: every spelling of \<^verbatim>\<open>fast\<close> in upper or lower case, and any string that
  lower-cases to \<^verbatim>\<open>fast\<close>, runs the subscription-based watch, which subscribes once;
  among strings the \<^verbatim>\<open>is not supported\<close> error arises exactly for those that do not
  lower-case to \<^verbatim>\<open>fast\<close>; a mode without a \<^verbatim>\<open>toLowerCase\<close> method makes the call fail with
  a \<^verbatim>\<open>TypeError\<close> before anything else happens. A mode that is not a string but has the
  method is dispatched on what the method returns: a \<^verbatim>\<open>String\<close> object behaves as the
  string it wraps, and an object whose own method returns a string \<open>r\<close> subscribes when
  \<open>r\<close> is \<^verbatim>\<open>fast\<close> and gets the \<^verbatim>\<open>is not supported\<close> error quoting \<open>r\<close> otherwise.
\<close>

theorem waitForTx_mode_case_insensitive:
  "(mode \<in> set (capitalizations ''fast'') \<or> toLowerCase mode = ''fast'' \<longrightarrow>
      waitForTx (JSString mode) web3 evs = waitForTxUsingSubscribePendingTransactions web3 evs
      \<and> subscribes (waitForTx (JSString mode) (Some w) evs) = 1)
   \<and> ((\<exists>x. promise (waitForTx (JSString s) web3 evs) =
            Rejected (Error (''waitForTx mode <'' @ x @ ''> is not supported'')))
        = (toLowerCase s \<noteq> ''fast''))
   \<and> (\<not> has_toLowerCase v \<longrightarrow> waitForTx v web3 evs = failed TypeError)
   \<and> waitForTx (new_String s) web3 evs = waitForTx (JSString s) web3 evs
   \<and> waitForTx (JSObject (Some (Inr (JSString r))) ts) web3 evs =
       (if r = ''fast'' then waitForTxUsingSubscribePendingTransactions web3 evs
        else failed (Error (''waitForTx mode <'' @ r @ ''> is not supported'')))"
proof -
  have a: "mode \<in> set (capitalizations ''fast'') \<or> toLowerCase mode = ''fast'' \<longrightarrow>
      waitForTx (JSString mode) web3 evs = waitForTxUsingSubscribePendingTransactions web3 evs
      \<and> subscribes (waitForTx (JSString mode) (Some w) evs) = 1"
  proof
    assume "mode \<in> set (capitalizations ''fast'') \<or> toLowerCase mode = ''fast''"
    then have l: "toLowerCase mode = ''fast''"
      using capitalizations_fast_lower [of mode] by blast
    then have "waitForTx (JSString mode) web3 evs =
        waitForTxUsingSubscribePendingTransactions web3 evs"
      by (simp add: waitForTx_JSString)
    moreover have "subscribes (waitForTx (JSString mode) (Some w) evs) = 1"
      using l by (simp add: waitForTx_fast foldl_on_event_subscribes)
    ultimately show "waitForTx (JSString mode) web3 evs =
        waitForTxUsingSubscribePendingTransactions web3 evs
      \<and> subscribes (waitForTx (JSString mode) (Some w) evs) = 1" by (intro conjI)
  qed
  have b: "(\<exists>x. promise (waitForTx (JSString s) web3 evs) =
            Rejected (Error (''waitForTx mode <'' @ x @ ''> is not supported'')))
        = (toLowerCase s \<noteq> ''fast'')"
  proof (cases "toLowerCase s = ''fast''")
    case True
    then have "waitForTx (JSString s) web3 evs =
        waitForTxUsingSubscribePendingTransactions web3 evs"
      by (simp add: waitForTx_JSString)
    with True waitForTx_subscribed_not_rejected [of web3 evs] show ?thesis by simp
  next
    case False
    then have "promise (waitForTx (JSString s) web3 evs) =
        Rejected (Error (''waitForTx mode <'' @ toLowerCase s @ ''> is not supported''))"
      by (simp add: waitForTx_JSString failed_def)
    with False show ?thesis by auto
  qed
  have c: "\<not> has_toLowerCase v \<longrightarrow> waitForTx v web3 evs = failed TypeError"
    by (cases v rule: has_toLowerCase.cases) (simp_all add: waitForTx_def)
  have d: "waitForTx (new_String s) web3 evs = waitForTx (JSString s) web3 evs"
    by (simp add: waitForTx_def new_String_def)
  have e: "waitForTx (JSObject (Some (Inr (JSString r))) ts) web3 evs =
       (if r = ''fast'' then waitForTxUsingSubscribePendingTransactions web3 evs
        else failed (Error (''waitForTx mode <'' @ r @ ''> is not supported'')))"
    by (simp add: waitForTx_def)
  from a b c d e show ?thesis by (intro conjI)
qed

theorem waitForTx_mode_case_insensitive_witness:
  "''FAST'' \<in> set (capitalizations ''fast'')
   \<and> (waitForTx (JSString ''FAST'') (Some ()) [Data ''h1''] :: (string, string) session)
       = waitForTxUsingSubscribePendingTransactions (Some ()) [Data ''h1'']
   \<and> subscribes (waitForTx (JSString ''FAST'') (Some ()) [Data ''h1'']
       :: (string, string) session) = 1
   \<and> \<not> has_toLowerCase (JSNumber 3)
   \<and> (waitForTx (JSNumber 3) (Some ()) [Data ''h1''] :: (string, string) session)
       = failed TypeError
   \<and> \<not> has_toLowerCase plain_object
   \<and> (waitForTx plain_object (Some ()) [Data ''h1''] :: (string, string) session)
       = failed TypeError"
proof -
  have h1: "''FAST'' \<in> set (capitalizations ''fast'')"
    unfolding capitalizations_fast by simp
  have h2: "\<not> has_toLowerCase (JSNumber 3)" by simp
  have h3: "\<not> has_toLowerCase plain_object" by (simp add: plain_object_def)
  note t = waitForTx_mode_case_insensitive
    [of "''FAST''" "Some ()" "[Data ''h1''] :: (string, string) event list" "()"]
  from t [where v = "JSNumber 3", THEN conjunct1] h1
  have a: "(waitForTx (JSString ''FAST'') (Some ()) [Data ''h1''] :: (string, string) session)
       = waitForTxUsingSubscribePendingTransactions (Some ()) [Data ''h1'']
     \<and> subscribes (waitForTx (JSString ''FAST'') (Some ()) [Data ''h1'']
       :: (string, string) session) = 1" by blast
  from t [where v = "JSNumber 3", THEN conjunct2, THEN conjunct2, THEN conjunct1] h2
  have b: "(waitForTx (JSNumber 3) (Some ()) [Data ''h1''] :: (string, string) session)
       = failed TypeError" by blast
  from t [where v = plain_object, THEN conjunct2, THEN conjunct2, THEN conjunct1] h3
  have c: "(waitForTx plain_object (Some ()) [Data ''h1''] :: (string, string) session)
       = failed TypeError" by blast
  from h1 a [THEN conjunct1] a [THEN conjunct2] h2 b h3 c show ?thesis by (intro conjI)
qed

text \<open>
  A \<^verbatim>\<open>String\<close> object is not a string, and neither is an object with a \<^verbatim>\<open>toLowerCase\<close>
  method of its own; both reach the \<^verbatim>\<open>switch\<close>. One that lower-cases to \<^verbatim>\<open>cheap\<close> gets the
  \<^verbatim>\<open>is not supported\<close> error and no \<^verbatim>\<open>TypeError\<close>, and \<^verbatim>\<open>new String('FAST')\<close> subscribes.
\<close>

theorem waitForTx_String_object_dispatched:
  "promise (waitForTx (new_String ''cheap'') (Some ()) [] :: (string, string) session)
     = Rejected (Error ''waitForTx mode <cheap> is not supported'')
   \<and> promise (waitForTx (JSObject (Some (Inr (JSString ''cheap''))) (Inr ''[object Object]''))
       (Some ()) [] :: (string, string) session)
     = Rejected (Error ''waitForTx mode <cheap> is not supported'')
   \<and> subscribes (waitForTx (new_String ''FAST'') (Some ()) [] :: (string, string) session) = 1
   \<and> promise (waitForTx (new_String ''FAST'') (Some ()) [] :: (string, string) session)
     = Pending"
  by (simp add: waitForTx_def new_String_def failed_def toLowerCase_def toLower_char_def
        waitForTxUsingSubscribePendingTransactions_def)

end
